theory Spec2Isabelle
  imports Main "HOL-Library.AList"
begin

section \<open>JavaScript values and faults\<close>

text \<open>
  The only hard fault the core can raise is the \<^verbatim>\<open>TypeError\<close> of a property read on
  \<^verbatim>\<open>undefined\<close> or \<^verbatim>\<open>null\<close>. A faulting operation is \<open>Inl TypeError\<close>; the heap at the
  moment of the fault is not tracked.
\<close>

datatype error = TypeError

text \<open>
  The argument of \<^verbatim>\<open>Scene.fromJson\<close> and the result of \<^verbatim>\<open>Scene.toJSON\<close> are plain
  JavaScript values. Objects are association lists from property name to value, in
  property order; numbers are represented by the integers.
\<close>

datatype jsval =
    JUndefined
  | JNull
  | JBool bool
  | JNum int
  | JStr string
  | JArr "jsval list"
  | JObj "(string \<times> jsval) list"

text \<open>JavaScript truthiness, as used by \<^verbatim>\<open>!x\<close> and \<^verbatim>\<open>x || y\<close>.\<close>

fun truthy :: "jsval \<Rightarrow> bool" where
  "truthy JUndefined = False"
| "truthy JNull = False"
| "truthy (JBool b) = b"
| "truthy (JNum n) = (n \<noteq> 0)"
| "truthy (JStr s) = (s \<noteq> [])"
| "truthy (JArr xs) = True"
| "truthy (JObj fs) = True"

text \<open>
  The property read \<^verbatim>\<open>v.name\<close>, for the names the core reads (\<^verbatim>\<open>text\<close>, \<^verbatim>\<open>next\<close>,
  \<^verbatim>\<open>choices\<close>): a fault on \<^verbatim>\<open>undefined\<close> and \<^verbatim>\<open>null\<close>, the stored value on an object that
  has the property, and \<^verbatim>\<open>undefined\<close> everywhere else (primitive strings, numbers,
  booleans and arrays have no property of these names).
\<close>

fun get_prop :: "jsval \<Rightarrow> string \<Rightarrow> error + jsval" where
  "get_prop JUndefined name = Inl TypeError"
| "get_prop JNull name = Inl TypeError"
| "get_prop (JObj fs) name = Inr (case map_of fs name of None \<Rightarrow> JUndefined | Some v \<Rightarrow> v)"
| "get_prop v name = Inr JUndefined"

text \<open>
  \<^verbatim>\<open>String.prototype.trim\<close>: a \<open>char\<close> stands for a code unit below 256, of which
  TAB, LF, VT, FF, CR, SPACE and NBSP are white space or line terminators.
\<close>

definition is_ws :: "char \<Rightarrow> bool" where
  "is_ws c = (of_char c \<in> {9, 10, 11, 12, 13, 32, 160 :: nat})"

definition trim :: "string \<Rightarrow> string" where
  "trim s = rev (dropWhile is_ws (rev (dropWhile is_ws s)))"

section \<open>Scene\<close>

text \<open>
  A JavaScript \<^verbatim>\<open>Map\<close> keeps its entries in insertion order with unique keys. It is an
  association list: \<^verbatim>\<open>get\<close> is \<^const>\<open>map_of\<close>, \<^verbatim>\<open>set\<close> is \<^const>\<open>AList.update\<close> (an
  existing key keeps its place, a new key goes to the end), \<^verbatim>\<open>delete\<close> is
  \<^const>\<open>AList.delete\<close>. The choices of a scene map the key of the next scene to the label
  of the choice. Scenes are objects on a heap, referred to by address; the \<^verbatim>\<open>Map\<close> held
  in \<^verbatim>\<open>choices\<close> is taken to belong to its scene alone.
\<close>

type_synonym ref = nat

type_synonym choice_map = "(string \<times> string) list"

record Scene =
  key :: string
  scene_text :: string
  parent :: "ref option"
  choices :: choice_map

text \<open>\<^verbatim>\<open>addChoice(text, next)\<close>: no overwrite of an existing key.\<close>

definition addChoice :: "string \<Rightarrow> string \<Rightarrow> Scene \<Rightarrow> bool \<times> Scene" where
  "addChoice txt nxt s =
     (if map_of (choices s) nxt \<noteq> None then (False, s)
      else (True, s\<lparr>choices := AList.update nxt txt (choices s)\<rparr>))"

text \<open>\<^verbatim>\<open>removeChoice(next)\<close> returns what \<^verbatim>\<open>Map.delete\<close> returns.\<close>

definition removeChoice :: "string \<Rightarrow> Scene \<Rightarrow> bool \<times> Scene" where
  "removeChoice nxt s =
     (map_of (choices s) nxt \<noteq> None, s\<lparr>choices := AList.delete nxt (choices s)\<rparr>)"

text \<open>
  The \<^verbatim>\<open>newChoices\<close> argument of \<^verbatim>\<open>updateContent\<close> is a \<^verbatim>\<open>Map\<close> or \<^verbatim>\<open>null\<close> (also the
  default of the parameter); its \<^verbatim>\<open>newText\<close> argument is a string (\<open>Some\<close>) or a value
  that is not a string (\<open>None\<close>).
\<close>

datatype choices_arg = CNull | CMap choice_map

text \<open>
  \<^verbatim>\<open>choicesAreEqual(newChoices)\<close> starts by reading \<^verbatim>\<open>newChoices.size\<close>, a fault when
  \<^verbatim>\<open>newChoices\<close> is \<^verbatim>\<open>null\<close>.
\<close>

fun choicesAreEqual :: "Scene \<Rightarrow> choices_arg \<Rightarrow> error + bool" where
  "choicesAreEqual s CNull = Inl TypeError"
| "choicesAreEqual s (CMap new) =
     Inr (if length (choices s) \<noteq> length new then False
          else list_all (\<lambda>(k, v). map_of new k = Some v) (choices s))"

fun updateContent :: "string option \<Rightarrow> choices_arg \<Rightarrow> Scene \<Rightarrow> error + (bool \<times> Scene)" where
  "updateContent newText newChoices s =
     (let (edited, s1) =
            (case newText of
               Some t \<Rightarrow> if trim t \<noteq> [] then (True, s\<lparr>scene_text := t\<rparr>) else (False, s)
             | None \<Rightarrow> (False, s))
      in case choicesAreEqual s1 newChoices of
           Inl e \<Rightarrow> Inl e
         | Inr True \<Rightarrow> Inr (edited, s1)
         | Inr False \<Rightarrow>
             (case newChoices of
                CMap new \<Rightarrow> Inr (True, s1\<lparr>choices := new\<rparr>)
              | CNull \<Rightarrow> Inr (True, s1\<lparr>choices := []\<rparr>)))"

text \<open>\<^verbatim>\<open>toJSON()\<close>: the \<^verbatim>\<open>choices\<close> property is left out when there is no choice.\<close>

definition toJSON :: "Scene \<Rightarrow> jsval" where
  "toJSON s =
     (let choicesArray =
            map (\<lambda>(nxt, txt). JObj [(''text'', JStr txt), (''next'', JStr nxt)]) (choices s)
      in if length choicesArray = 0 then JObj [(''text'', JStr (scene_text s))]
         else JObj [(''text'', JStr (scene_text s)), (''choices'', JArr choicesArray)])"

text \<open>
  One entry of the \<^verbatim>\<open>choices\<close> array in \<^verbatim>\<open>fromJson\<close>: \<open>None\<close> when the loop skips it
  (\<^verbatim>\<open>!c\<close>, or \<^verbatim>\<open>c.text\<close> or \<^verbatim>\<open>c.next\<close> not a string), otherwise the pair
  \<open>(c.text, c.next)\<close>.
\<close>

fun choice_entry :: "jsval \<Rightarrow> (string \<times> string) option" where
  "choice_entry c =
     (if \<not> truthy c then None
      else case (get_prop c ''text'', get_prop c ''next'') of
             (Inr (JStr t), Inr (JStr n)) \<Rightarrow> Some (t, n)
           | _ \<Rightarrow> None)"

text \<open>
  \<^verbatim>\<open>Scene.fromJson(key, json)\<close>. \<^verbatim>\<open>JSON.parse\<close> is the parameter \<open>parse\<close>, \<open>None\<close> when it
  throws (the throw is caught). The result \<open>Inr None\<close> is the \<^verbatim>\<open>null\<close> return; the new
  scene has no parent.
\<close>

definition fromJson :: "(string \<Rightarrow> jsval option) \<Rightarrow> string \<Rightarrow> jsval \<Rightarrow> error + Scene option" where
  "fromJson parse k json =
     (if k = [] \<or> \<not> truthy json then Inr None
      else
        case (case json of
                JStr str \<Rightarrow> parse str
              | JObj fs \<Rightarrow> Some json
              | JArr xs \<Rightarrow> Some json
              | JNull \<Rightarrow> Some json
              | _ \<Rightarrow> None) of
          None \<Rightarrow> Inr None
        | Some parsedObject \<Rightarrow>
            (case get_prop parsedObject ''text'' of
               Inl e \<Rightarrow> Inl e
             | Inr (JStr t) \<Rightarrow>
                 if t = [] then Inr None
                 else
                   let scene = \<lparr>key = k, scene_text = t, parent = None, choices = []\<rparr>
                   in (case get_prop parsedObject ''choices'' of
                         Inl e \<Rightarrow> Inl e
                       | Inr (JArr cs) \<Rightarrow>
                           Inr (Some (fold (\<lambda>c sc. case choice_entry c of
                                                     None \<Rightarrow> sc
                                                   | Some (t, n) \<Rightarrow> snd (addChoice t n sc))
                                            cs scene))
                       | Inr _ \<Rightarrow> Inr (Some scene))
             | Inr _ \<Rightarrow> Inr None))"

section \<open>Story\<close>

text \<open>
  \<^verbatim>\<open>scenes\<close> is a \<^verbatim>\<open>Map\<close> from key to scene object, \<^verbatim>\<open>root\<close> a scene object or \<^verbatim>\<open>null\<close>.
  Every address holds a scene (a JavaScript reference never dangles); the operations
  that mutate scenes return the new heap.
\<close>

type_synonym heap = "ref \<Rightarrow> Scene"

record Story =
  scenes :: "(string \<times> ref) list"
  root :: "ref option"

definition getScene :: "Story \<Rightarrow> string \<Rightarrow> ref option" where
  "getScene st k = map_of (scenes st) k"




text \<open>
  \<^verbatim>\<open>getSceneDepth(scenes, scene)\<close> follows the parent references; on a cycle of parents
  the loop never ends, which is the value \<open>None\<close>.
\<close>

partial_function (option) parent_walk :: "heap \<Rightarrow> ref \<Rightarrow> int \<Rightarrow> int option" where
  "parent_walk h current depth =
     (case parent (h current) of
        None \<Rightarrow> Some depth
      | Some p \<Rightarrow> parent_walk h p (depth + 1))"

declare parent_walk.simps [code]

definition getSceneDepth :: "heap \<Rightarrow> (string \<times> ref) list \<Rightarrow> ref \<Rightarrow> int option" where
  "getSceneDepth h scs scene =
     (if map_of scs (key (h scene)) = None then Some (- 1) else parent_walk h scene 0)"

text \<open>An entry \<^verbatim>\<open>{ key, scene, depth }\<close> of the traversal.\<close>

record SceneRef =
  ref_key :: string
  ref_scene :: ref
  ref_depth :: int

text \<open>
  The children pushed for a scene: its choice keys in order, resolved by \<^verbatim>\<open>getScene\<close>,
  keeping those that exist and whose key is not visited.
\<close>

definition dfs_children :: "heap \<Rightarrow> Story \<Rightarrow> string set \<Rightarrow> ref \<Rightarrow> ref list" where
  "dfs_children h st visited scene =
     filter (\<lambda>child. key (h child) \<notin> visited)
       (List.map_filter (getScene st) (map fst (choices (h scene))))"

text \<open>
  The \<^verbatim>\<open>while\<close> loop of \<^verbatim>\<open>getScenesDFS\<close>. The stack has its top at the head; the
  \<^verbatim>\<open>for\<close> loop pushes the children from the last to the first, which \<^const>\<open>foldr\<close> does.
\<close>

function dfs_loop ::
  "heap \<Rightarrow> Story \<Rightarrow> (ref \<times> int) list \<Rightarrow> string set \<Rightarrow> SceneRef list \<Rightarrow> SceneRef list" where
  "dfs_loop h st [] visited result = result"
| "dfs_loop h st ((scene, depth) # stack) visited result =
     (if key (h scene) \<in> visited then dfs_loop h st stack visited result
      else
        let visited1 = insert (key (h scene)) visited;
            result1 = result @ [\<lparr>ref_key = key (h scene), ref_scene = scene, ref_depth = depth\<rparr>];
            children = dfs_children h st visited1 scene
        in dfs_loop h st (foldr (\<lambda>child stk. (child, depth + 1) # stk) children stack)
             visited1 result1)"
  by pat_completeness auto

termination dfs_loop
proof (relation "measures
    [\<lambda>(h, st, stack, visited, result).
        card (key ` h ` (snd ` set (scenes st) \<union> fst ` set stack) - visited),
     \<lambda>(h, st, stack, visited, result). length stack]")
  show "wf (measures
    [\<lambda>(h, st, stack, visited, result).
        card (key ` h ` (snd ` set (scenes st) \<union> fst ` set stack) - visited),
     \<lambda>(h, st, stack, visited, result). length (stack :: (ref \<times> int) list)])"
    by simp
next
  fix h :: heap and st :: Story and scene :: ref and depth :: int
    and stack :: "(ref \<times> int) list" and visited :: "string set" and result :: "SceneRef list"
  assume "key (h scene) \<in> visited"
  have "card (key ` h ` (snd ` set (scenes st) \<union> fst ` set stack) - visited)
      \<le> card (key ` h ` (snd ` set (scenes st) \<union> fst ` set ((scene, depth) # stack)) - visited)"
    by (rule card_mono) auto
  then show "((h, st, stack, visited, result), (h, st, (scene, depth) # stack, visited, result))
      \<in> measures
    [\<lambda>(h, st, stack, visited, result).
        card (key ` h ` (snd ` set (scenes st) \<union> fst ` set stack) - visited),
     \<lambda>(h, st, stack, visited, result). length stack]"
    by auto
next
  fix h :: heap and st :: Story and scene :: ref and depth :: int
    and stack :: "(ref \<times> int) list" and visited :: "string set" and result :: "SceneRef list"
    and visited1 result1 children
  assume nv: "key (h scene) \<notin> visited"
    and v1: "visited1 = insert (key (h scene)) visited"
    and ch: "children = dfs_children h st visited1 scene"
  have push: "\<And>cs. foldr (\<lambda>child stk. (child, depth + 1) # stk) cs stack
      = map (\<lambda>c. (c, depth + 1)) cs @ stack"
    by (induct_tac cs) auto
  have sub: "set children \<subseteq> snd ` set (scenes st)"
  proof
    fix r assume "r \<in> set children"
    then obtain k where "map_of (scenes st) k = Some r"
      unfolding ch dfs_children_def getScene_def by (auto simp: List.map_filter_def)
    then have "(k, r) \<in> set (scenes st)" by (rule map_of_SomeD)
    then show "r \<in> snd ` set (scenes st)" by force
  qed
  let ?K = "key ` h ` (snd ` set (scenes st) \<union> fst ` set ((scene, depth) # stack))"
  let ?K' = "key ` h ` (snd ` set (scenes st)
      \<union> fst ` set (foldr (\<lambda>child stk. (child, depth + 1) # stk) children stack))"
  have "?K' - visited1 \<subset> ?K - visited"
    using nv sub unfolding v1 push by (auto simp: image_Un image_image)
  then have "card (?K' - visited1) < card (?K - visited)"
    by (intro psubset_card_mono) auto
  then show "((h, st, foldr (\<lambda>child stk. (child, depth + 1) # stk) children stack, visited1, result1),
       (h, st, (scene, depth) # stack, visited, result))
      \<in> measures
    [\<lambda>(h, st, stack, visited, result).
        card (key ` h ` (snd ` set (scenes st) \<union> fst ` set stack) - visited),
     \<lambda>(h, st, stack, visited, result). length stack]"
    by simp
qed

text \<open>
  \<^verbatim>\<open>getScenesDFS(story, startScene = story.root)\<close>; the caller passes \<open>root st\<close> for
  the default. \<open>None\<close> is the non-termination of \<^verbatim>\<open>getSceneDepth\<close>, which is called
  only when the start is not the root.
\<close>

definition getScenesDFS :: "heap \<Rightarrow> Story \<Rightarrow> ref option \<Rightarrow> SceneRef list option" where
  "getScenesDFS h st startScene =
     (case startScene of
        None \<Rightarrow> Some []
      | Some start \<Rightarrow>
          (case (if startScene \<noteq> root st then getSceneDepth h (scenes st) start else Some 0) of
             None \<Rightarrow> None
           | Some baseDepth \<Rightarrow> Some (dfs_loop h st [(start, baseDepth)] {} [])))"

text \<open>
  The scan of \<^verbatim>\<open>hasCircle\<close> over the traversal: a scene is added to \<^verbatim>\<open>visited\<close> after its
  own choices are checked.
\<close>

fun hasCircle_loop :: "heap \<Rightarrow> Story \<Rightarrow> SceneRef list \<Rightarrow> string set \<Rightarrow> bool" where
  "hasCircle_loop h st [] visited = False"
| "hasCircle_loop h st (e # es) visited =
     (if list_ex (\<lambda>nextKey. case getScene st nextKey of
                                None \<Rightarrow> False
                              | Some nextScene \<Rightarrow> key (h nextScene) \<in> visited)
           (map fst (choices (h (ref_scene e))))
      then True
      else hasCircle_loop h st es (insert (key (h (ref_scene e))) visited))"

definition hasCircle :: "heap \<Rightarrow> Story \<Rightarrow> bool option" where
  "hasCircle h st =
     (case getScenesDFS h st (root st) of
        None \<Rightarrow> None
      | Some scs \<Rightarrow> Some (hasCircle_loop h st scs {}))"

text \<open>\<^verbatim>\<open>editScene(key, newText, newChoices)\<close>.\<close>

definition editScene ::
  "heap \<Rightarrow> Story \<Rightarrow> string \<Rightarrow> string option \<Rightarrow> choices_arg \<Rightarrow> error + (bool \<times> heap \<times> Story)" where
  "editScene h st k newText newChoices =
     (case map_of (scenes st) k of
        None \<Rightarrow> Inr (False, h, st)
      | Some scene \<Rightarrow>
          (case updateContent newText newChoices (h scene) of
             Inl e \<Rightarrow> Inl e
           | Inr (edited, s') \<Rightarrow> Inr (edited, h(scene := s'), st)))"

text \<open>
  \<^verbatim>\<open>changeSceneParent(key, newParentKey)\<close>. After the warning for an absent key the
  method goes on and reads \<^verbatim>\<open>scene.parent\<close> of \<^verbatim>\<open>undefined\<close>. The old label is read as
  \<^verbatim>\<open>scene.parent.choices.get(scene.key).text\<close>: the \<^verbatim>\<open>text\<close> property of the value the
  \<^verbatim>\<open>Map\<close> holds for the key, a string when the key is there and \<^verbatim>\<open>undefined\<close> when not.
\<close>

definition changeSceneParent ::
  "heap \<Rightarrow> Story \<Rightarrow> string \<Rightarrow> string \<Rightarrow> error + (bool \<times> heap \<times> Story)" where
  "changeSceneParent h st k newParentKey =
     (case map_of (scenes st) k of
        None \<Rightarrow> Inl TypeError
      | Some scene \<Rightarrow>
          (case parent (h scene) of
             None \<Rightarrow> Inl TypeError
           | Some oldParent \<Rightarrow>
               (case get_prop (case map_of (choices (h oldParent)) (key (h scene)) of
                                 None \<Rightarrow> JUndefined
                               | Some label \<Rightarrow> JStr label) ''text'' of
                  Inl e \<Rightarrow> Inl e
                | Inr oldParentChoiceText \<Rightarrow>
                    (let h1 = h(oldParent := snd (removeChoice (key (h scene)) (h oldParent)))
                     in (case map_of (scenes st) newParentKey of
                           None \<Rightarrow> Inr (False, h1(scene := (h1 scene)\<lparr>parent := None\<rparr>), st)
                         | Some newParent \<Rightarrow>
                             (let h2 = h1(scene := (h1 scene)\<lparr>parent := Some newParent\<rparr>);
                                  label = (case oldParentChoiceText of
                                             JStr t \<Rightarrow> if t \<noteq> [] then t else ''to '' @ key (h2 scene)
                                           | _ \<Rightarrow> ''to '' @ key (h2 scene))
                              in Inr (True,
                                      h2(newParent :=
                                           snd (addChoice label (key (h2 scene)) (h2 newParent))),
                                      st)))))))"


section \<open>Notions the properties are stated with\<close>






section \<open>Scene content\<close>

lemma choicesAreEqual_self:
  "distinct (map fst (choices s)) \<Longrightarrow> choicesAreEqual s (CMap (choices s)) = Inr True"
  by (auto simp: list_all_iff)

text \<open>
  Claim C6. \<^verbatim>\<open>editScene\<close> called with the choices the scene already has is said to
  return true only if the text differs, and false when text and choices are both
  unchanged. The code sets \<^verbatim>\<open>edited\<close> for every non-blank \<^verbatim>\<open>newText\<close> without comparing
  it with the current text: with the scene's own non-blank text and its own choices the
  call returns true and leaves heap and story as they were.
\<close>

theorem editScene_unchanged_returns_true:
  assumes "map_of (scenes st) k = Some r"
    and "trim (scene_text (h r)) \<noteq> []"
    and "distinct (map fst (choices (h r)))"
  shows "editScene h st k (Some (scene_text (h r))) (CMap (choices (h r))) = Inr (True, h, st)"
proof -
  have "choicesAreEqual (h r) (CMap (choices (h r))) = Inr True"
    using assms(3) by (rule choicesAreEqual_self)
  then have "updateContent (Some (scene_text (h r))) (CMap (choices (h r))) (h r) = Inr (True, h r)"
    using assms(2) by (simp del: choicesAreEqual.simps)
  then show ?thesis
    using assms(1) by (simp add: editScene_def del: updateContent.simps)
qed

theorem editScene_unchanged_returns_true_witness:
  "editScene (\<lambda>_. \<lparr>key = ''A'', scene_text = ''Root Scene'', parent = None,
                     choices = [(''B'', ''Go to B'')]\<rparr>)
     \<lparr>scenes = [(''A'', 0)], root = Some 0\<rparr> ''A'' (Some ''Root Scene'') (CMap [(''B'', ''Go to B'')])
   = Inr (True,
          \<lambda>_. \<lparr>key = ''A'', scene_text = ''Root Scene'', parent = None,
                choices = [(''B'', ''Go to B'')]\<rparr>,
          \<lparr>scenes = [(''A'', 0)], root = Some 0\<rparr>)"
proof -
  let ?h = "\<lambda>_::ref. \<lparr>key = ''A'', scene_text = ''Root Scene'', parent = None,
                     choices = [(''B'', ''Go to B'')]\<rparr>"
  let ?st = "\<lparr>scenes = [(''A'', 0::ref)], root = Some 0\<rparr>"
  have 1: "map_of (scenes ?st) ''A'' = Some 0" by simp
  have 2: "trim (scene_text (?h 0)) \<noteq> []" by (simp add: trim_def is_ws_def)
  have 3: "distinct (map fst (choices (?h 0)))" by simp
  show ?thesis
    using editScene_unchanged_returns_true [of ?st "''A''" 0 ?h, OF 1 2 3] by simp
qed

text \<open>
  Claim C7. \<^verbatim>\<open>updateContent\<close> with \<^verbatim>\<open>null\<close> for \<^verbatim>\<open>newChoices\<close> is said to return a boolean
  and leave the choices empty. In the code \<^verbatim>\<open>choicesAreEqual\<close> reads \<^verbatim>\<open>null.size\<close> before
  the branch that clears the choices is reached: the call faults for every scene and
  every text.
\<close>

theorem updateContent_null_faults: "updateContent newText CNull s = Inl TypeError"
  by (simp split: option.split prod.split)

section \<open>Reparenting\<close>

text \<open>
  Claim C8. \<^verbatim>\<open>changeSceneParent\<close> on a key absent from the collection is said to return
  false without a fault. The code warns and goes on to read \<^verbatim>\<open>scene.parent\<close> of
  \<^verbatim>\<open>undefined\<close>: the call faults for every story and every absent key.
\<close>

theorem changeSceneParent_absent_key_faults:
  "map_of (scenes st) k = None \<Longrightarrow> changeSceneParent h st k newParentKey = Inl TypeError"
  by (simp add: changeSceneParent_def)

theorem changeSceneParent_absent_key_faults_witness:
  "map_of (scenes \<lparr>scenes = [(''A'', 0)], root = Some 0\<rparr>) ''Z'' = None
   \<and> changeSceneParent (\<lambda>_. \<lparr>key = ''A'', scene_text = ''Root Scene'', parent = None, choices = []\<rparr>)
        \<lparr>scenes = [(''A'', 0)], root = Some 0\<rparr> ''Z'' ''A'' = Inl TypeError"
  using changeSceneParent_absent_key_faults
    [of "\<lparr>scenes = [(''A'', 0)], root = Some 0\<rparr>" "''Z''"
        "\<lambda>_. \<lparr>key = ''A'', scene_text = ''Root Scene'', parent = None, choices = []\<rparr>" "''A''"]
  by simp

text \<open>
  Claim C4. \<^verbatim>\<open>changeSceneParent("B", "A")\<close>, when B's parent is another scene X with an
  edge to B labelled L, is said to give A an edge to B with the label L. The code reads
  the \<^verbatim>\<open>text\<close> property of the label string, which is \<^verbatim>\<open>undefined\<close>, so the new edge
  always gets the default label \<^verbatim>\<open>"to " + key\<close> whatever L was (here A has no edge to B
  before the call). The rest of the claim holds: X loses its edge, B's parent becomes A
  and the call returns true.
\<close>

theorem changeSceneParent_label_not_preserved:
  assumes "map_of (scenes st) k = Some rb"
    and "map_of (scenes st) newParentKey = Some ra"
    and "parent (h rb) = Some rx" and "rx \<noteq> ra"
    and "map_of (choices (h rx)) (key (h rb)) = Some L"
    and "map_of (choices (h ra)) (key (h rb)) = None"
  shows "\<exists>h'. changeSceneParent h st k newParentKey = Inr (True, h', st)
       \<and> map_of (choices (h' rx)) (key (h rb)) = None
       \<and> map_of (choices (h' ra)) (key (h rb)) = Some (''to '' @ key (h rb))
       \<and> parent (h' rb) = Some ra"
  using assms
  by (auto simp: changeSceneParent_def removeChoice_def addChoice_def Let_def
      AList.delete_conv AList.update_conv)

theorem changeSceneParent_label_not_preserved_witness:
  "\<exists>h'. changeSceneParent
           ((\<lambda>_. \<lparr>key = ''X'', scene_text = ''Scene X'', parent = None,
                    choices = [(''B'', ''Go to B'')]\<rparr>)
              (1 := \<lparr>key = ''A'', scene_text = ''Scene A'', parent = None, choices = []\<rparr>,
               2 := \<lparr>key = ''B'', scene_text = ''Scene B'', parent = Some 0, choices = []\<rparr>))
           \<lparr>scenes = [(''X'', 0), (''A'', 1), (''B'', 2)], root = Some 0\<rparr> ''B'' ''A''
         = Inr (True, h', \<lparr>scenes = [(''X'', 0), (''A'', 1), (''B'', 2)], root = Some 0\<rparr>)
       \<and> map_of (choices (h' 0)) ''B'' = None
       \<and> map_of (choices (h' 1)) ''B'' = Some ''to B''
       \<and> parent (h' 2) = Some 1"
proof -
  let ?h = "(\<lambda>_::ref. \<lparr>key = ''X'', scene_text = ''Scene X'', parent = None,
                    choices = [(''B'', ''Go to B'')]\<rparr>)
              (1 := \<lparr>key = ''A'', scene_text = ''Scene A'', parent = None, choices = []\<rparr>,
               2 := \<lparr>key = ''B'', scene_text = ''Scene B'', parent = Some 0, choices = []\<rparr>)"
  let ?st = "\<lparr>scenes = [(''X'', 0::ref), (''A'', 1), (''B'', 2)], root = Some 0\<rparr>"
  have 1: "map_of (scenes ?st) ''B'' = Some 2" by simp
  have 2: "map_of (scenes ?st) ''A'' = Some 1" by simp
  have 3: "parent (?h 2) = Some 0" by simp
  have 4: "(0::ref) \<noteq> 1" by simp
  have 5: "map_of (choices (?h 0)) (key (?h 2)) = Some ''Go to B''" by simp
  have 6: "map_of (choices (?h 1)) (key (?h 2)) = None" by simp
  have 7: "key (?h 2) = ''B''" by simp
  show ?thesis
    using changeSceneParent_label_not_preserved [OF 1 2 3 4 5 6]
    by (simp only: 7 append.simps)
qed

section \<open>Traversal and cycle detection\<close>

text \<open>
  Claim C10. On a story of one scene whose only choice targets the scene itself,
  \<^verbatim>\<open>hasCircle\<close> returns false: the scene's key enters \<^verbatim>\<open>visited\<close> only after its own
  choices were checked.
\<close>

theorem hasCircle_self_loop:
  "hasCircle (h(r := \<lparr>key = k, scene_text = t, parent = p, choices = [(k, l)]\<rparr>))
     \<lparr>scenes = [(k, r)], root = Some r\<rparr> = Some False"
  by (simp add: hasCircle_def getScenesDFS_def dfs_children_def getScene_def List.map_filter_def)

text \<open>
  Claim C1. On the chain A\<rightarrow>B\<rightarrow>C the traversal from the root returns the entries of A,
  B and C in that order, and on the cycle A\<rightarrow>B\<rightarrow>C\<rightarrow>A it terminates with the same three
  entries, each once. The keys and the scene objects are pairwise distinct; texts,
  labels and parents are arbitrary; \<open>cs\<close> is empty for the chain and the edge back to A
  for the cycle. The collection is any that stores the three scenes under their keys, in
  whatever order, and has A for its root.
\<close>

theorem getScenesDFS_chain_and_cycle:
  assumes "distinct [ka, kb, kc]" and "distinct [ra, rb, rc]"
    and "cs = [] \<or> cs = [(ka, lc)]"
    and "root st = Some ra"
    and "map_of (scenes st) ka = Some ra"
    and "map_of (scenes st) kb = Some rb"
    and "map_of (scenes st) kc = Some rc"
  shows "getScenesDFS
           (h(ra := \<lparr>key = ka, scene_text = ta, parent = pa, choices = [(kb, la)]\<rparr>,
              rb := \<lparr>key = kb, scene_text = tb, parent = pb, choices = [(kc, lb)]\<rparr>,
              rc := \<lparr>key = kc, scene_text = tc, parent = pc, choices = cs\<rparr>))
           st (root st)
         = Some [\<lparr>ref_key = ka, ref_scene = ra, ref_depth = 0\<rparr>,
                 \<lparr>ref_key = kb, ref_scene = rb, ref_depth = 1\<rparr>,
                 \<lparr>ref_key = kc, ref_scene = rc, ref_depth = 2\<rparr>]"
  using assms
  by (auto simp: getScenesDFS_def dfs_children_def getScene_def List.map_filter_def)

theorem getScenesDFS_chain_and_cycle_witness:
  "getScenesDFS
     ((\<lambda>_. \<lparr>key = ''Z'', scene_text = ''Other'', parent = None, choices = [(''C'', ''Go to C'')]\<rparr>)
        (0 := \<lparr>key = ''A'', scene_text = ''Root Scene'', parent = None,
                choices = [(''B'', ''Go to B'')]\<rparr>,
         1 := \<lparr>key = ''B'', scene_text = ''Child Scene'', parent = Some 0,
                choices = [(''C'', ''Go to C'')]\<rparr>,
         2 := \<lparr>key = ''C'', scene_text = ''Grandchild Scene'', parent = Some 1, choices = []\<rparr>))
     \<lparr>scenes = [(''A'', 0), (''C'', 2), (''B'', 1)], root = Some 0\<rparr>
     (root \<lparr>scenes = [(''A'', 0), (''C'', 2), (''B'', 1)], root = Some 0\<rparr>)
   = Some [\<lparr>ref_key = ''A'', ref_scene = 0, ref_depth = 0\<rparr>,
           \<lparr>ref_key = ''B'', ref_scene = 1, ref_depth = 1\<rparr>,
           \<lparr>ref_key = ''C'', ref_scene = 2, ref_depth = 2\<rparr>]
   \<and> getScenesDFS
     ((\<lambda>_. \<lparr>key = ''Z'', scene_text = ''Other'', parent = None, choices = [(''C'', ''Go to C'')]\<rparr>)
        (0 := \<lparr>key = ''A'', scene_text = ''Root Scene'', parent = None,
                choices = [(''B'', ''Go to B'')]\<rparr>,
         1 := \<lparr>key = ''B'', scene_text = ''Child Scene'', parent = None,
                choices = [(''C'', ''Go to C'')]\<rparr>,
         2 := \<lparr>key = ''C'', scene_text = ''Child Scene'', parent = None,
                choices = [(''A'', ''Go to A'')]\<rparr>))
     \<lparr>scenes = [(''Z'', 3), (''C'', 2), (''B'', 1), (''A'', 0)], root = Some 0\<rparr>
     (root \<lparr>scenes = [(''Z'', 3), (''C'', 2), (''B'', 1), (''A'', 0)], root = Some 0\<rparr>)
   = Some [\<lparr>ref_key = ''A'', ref_scene = 0, ref_depth = 0\<rparr>,
           \<lparr>ref_key = ''B'', ref_scene = 1, ref_depth = 1\<rparr>,
           \<lparr>ref_key = ''C'', ref_scene = 2, ref_depth = 2\<rparr>]"
proof -
  let ?s1 = "\<lparr>scenes = [(''A'', 0::ref), (''C'', 2), (''B'', 1)], root = Some 0\<rparr>"
  let ?s2 = "\<lparr>scenes = [(''Z'', 3::ref), (''C'', 2), (''B'', 1), (''A'', 0)], root = Some 0\<rparr>"
  have k: "distinct [''A'', ''B'', ''C'']" by simp
  have r: "distinct [0::ref, 1, 2]" by simp
  have c1: "[] = [] \<or> ([]::choice_map) = [(''A'', ''Go to A'')]" by simp
  have c2: "[(''A'', ''Go to A'')] = [] \<or> [(''A'', ''Go to A'')] = [(''A'', ''Go to A'')]" by simp
  have s1: "root ?s1 = Some 0" "map_of (scenes ?s1) ''A'' = Some 0"
    "map_of (scenes ?s1) ''B'' = Some 1" "map_of (scenes ?s1) ''C'' = Some 2" by simp_all
  have s2: "root ?s2 = Some 0" "map_of (scenes ?s2) ''A'' = Some 0"
    "map_of (scenes ?s2) ''B'' = Some 1" "map_of (scenes ?s2) ''C'' = Some 2" by simp_all
  show ?thesis
    using getScenesDFS_chain_and_cycle [OF k r c1 s1,
        where h = "\<lambda>_. \<lparr>key = ''Z'', scene_text = ''Other'', parent = None,
                          choices = [(''C'', ''Go to C'')]\<rparr>"]
      getScenesDFS_chain_and_cycle [OF k r c2 s2,
        where h = "\<lambda>_. \<lparr>key = ''Z'', scene_text = ''Other'', parent = None,
                          choices = [(''C'', ''Go to C'')]\<rparr>"]
    by (intro conjI) assumption+
qed

text \<open>
  Claim C2. \<^verbatim>\<open>hasCircle\<close> returns true on the cycles A\<rightarrow>B\<rightarrow>C\<rightarrow>A and A\<rightarrow>B\<rightarrow>A, and false
  on the chain A\<rightarrow>B\<rightarrow>C, on the empty story and on a story whose root has no choices.
  Keys and scene objects are pairwise distinct; texts, labels and parents are arbitrary;
  each collection is any that stores the scenes of the graph under their keys, in
  whatever order, and has A for its root.
\<close>

theorem hasCircle_examples:
  assumes "distinct [ka, kb, kc]" and "distinct [ra, rb, rc]"
  shows "(root st = Some ra \<and> map_of (scenes st) ka = Some ra
            \<and> map_of (scenes st) kb = Some rb \<and> map_of (scenes st) kc = Some rc \<longrightarrow>
          hasCircle
           (h(ra := \<lparr>key = ka, scene_text = ta, parent = pa, choices = [(kb, la)]\<rparr>,
              rb := \<lparr>key = kb, scene_text = tb, parent = pb, choices = [(kc, lb)]\<rparr>,
              rc := \<lparr>key = kc, scene_text = tc, parent = pc, choices = [(ka, lc)]\<rparr>))
           st = Some True
          \<and> hasCircle
           (h(ra := \<lparr>key = ka, scene_text = ta, parent = pa, choices = [(kb, la)]\<rparr>,
              rb := \<lparr>key = kb, scene_text = tb, parent = pb, choices = [(kc, lb)]\<rparr>,
              rc := \<lparr>key = kc, scene_text = tc, parent = pc, choices = []\<rparr>))
           st = Some False)
       \<and> (root sa = Some ra \<and> map_of (scenes sa) ka = Some ra
            \<and> map_of (scenes sa) kb = Some rb \<longrightarrow>
          hasCircle
           (h(ra := \<lparr>key = ka, scene_text = ta, parent = pa, choices = [(kb, la)]\<rparr>,
              rb := \<lparr>key = kb, scene_text = tb, parent = pb, choices = [(ka, ld)]\<rparr>))
           sa = Some True)
       \<and> hasCircle h \<lparr>scenes = [], root = None\<rparr> = Some False
       \<and> (root sb = Some ra \<longrightarrow>
          hasCircle (h(ra := \<lparr>key = ka, scene_text = ta, parent = pa, choices = []\<rparr>))
           sb = Some False)"
  using assms
  by (auto simp: hasCircle_def getScenesDFS_def dfs_children_def getScene_def List.map_filter_def)

theorem hasCircle_examples_witness:
  "hasCircle
     ((\<lambda>_. \<lparr>key = '''', scene_text = '''', parent = None, choices = []\<rparr>)
        (0 := \<lparr>key = ''A'', scene_text = ''Scene A'', parent = None, choices = [(''B'', ''Go to B'')]\<rparr>,
         1 := \<lparr>key = ''B'', scene_text = ''Scene B'', parent = None, choices = [(''C'', ''Go to C'')]\<rparr>,
         2 := \<lparr>key = ''C'', scene_text = ''Scene C'', parent = None, choices = [(''A'', ''Go to A'')]\<rparr>))
     \<lparr>scenes = [(''A'', 0), (''C'', 2), (''B'', 1)], root = Some 0\<rparr> = Some True
   \<and> hasCircle
     ((\<lambda>_. \<lparr>key = '''', scene_text = '''', parent = None, choices = []\<rparr>)
        (0 := \<lparr>key = ''A'', scene_text = ''Scene A'', parent = None, choices = [(''B'', ''Go to B'')]\<rparr>,
         1 := \<lparr>key = ''B'', scene_text = ''Scene B'', parent = None, choices = [(''C'', ''Go to C'')]\<rparr>,
         2 := \<lparr>key = ''C'', scene_text = ''Scene C'', parent = None, choices = []\<rparr>))
     \<lparr>scenes = [(''A'', 0), (''C'', 2), (''B'', 1)], root = Some 0\<rparr> = Some False
   \<and> hasCircle
     ((\<lambda>_. \<lparr>key = '''', scene_text = '''', parent = None, choices = []\<rparr>)
        (0 := \<lparr>key = ''A'', scene_text = ''Scene A'', parent = None, choices = [(''B'', ''Go to B'')]\<rparr>,
         1 := \<lparr>key = ''B'', scene_text = ''Scene B'', parent = None, choices = [(''A'', ''Go to A'')]\<rparr>))
     \<lparr>scenes = [(''B'', 1), (''A'', 0)], root = Some 0\<rparr> = Some True
   \<and> hasCircle (\<lambda>_. \<lparr>key = '''', scene_text = '''', parent = None, choices = []\<rparr>)
     \<lparr>scenes = [], root = None\<rparr> = Some False
   \<and> hasCircle
     ((\<lambda>_. \<lparr>key = '''', scene_text = '''', parent = None, choices = []\<rparr>)
        (0 := \<lparr>key = ''A'', scene_text = ''Scene A'', parent = None, choices = []\<rparr>))
     \<lparr>scenes = [(''A'', 0)], root = Some 0\<rparr> = Some False"
proof -
  have k: "distinct [''A'', ''B'', ''C'']" by simp
  have r: "distinct [0::ref, 1, 2]" by simp
  show ?thesis
    using hasCircle_examples [OF k r,
        where h = "\<lambda>_. \<lparr>key = '''', scene_text = '''', parent = None, choices = []\<rparr>"
          and st = "\<lparr>scenes = [(''A'', 0), (''C'', 2), (''B'', 1)], root = Some 0\<rparr>"
          and sa = "\<lparr>scenes = [(''B'', 1), (''A'', 0)], root = Some 0\<rparr>"
          and sb = "\<lparr>scenes = [(''A'', 0)], root = Some 0\<rparr>"
          and ta = "''Scene A''" and tb = "''Scene B''" and tc = "''Scene C''"
          and pa = None and pb = None and pc = None
          and la = "''Go to B''" and lb = "''Go to C''" and lc = "''Go to A''"
          and ld = "''Go to A''"]
    by simp
qed

section \<open>Serialisation\<close>

lemma update_fresh: "k \<notin> fst ` set xs \<Longrightarrow> AList.update k v xs = xs @ [(k, v)]"
  by (induction xs) auto

lemma choice_entry_encoded:
  "choice_entry (JObj [(''text'', JStr t), (''next'', JStr n)]) = Some (t, n)"
  by simp

lemma addChoice_fresh:
  "nxt \<notin> fst ` set (choices s) \<Longrightarrow> addChoice txt nxt s = (True, s\<lparr>choices := choices s @ [(nxt, txt)]\<rparr>)"
  by (simp add: addChoice_def update_fresh map_of_eq_None_iff)

lemma fold_encoded_choices:
  "distinct (map fst (acc @ cs)) \<Longrightarrow>
   fold (\<lambda>c sc. case choice_entry c of None \<Rightarrow> sc | Some (t, n) \<Rightarrow> snd (addChoice t n sc))
     (map (\<lambda>(nxt, txt). JObj [(''text'', JStr txt), (''next'', JStr nxt)]) cs)
     (sc\<lparr>choices := acc\<rparr>)
   = sc\<lparr>choices := acc @ cs\<rparr>"
proof (induction cs arbitrary: acc)
  case Nil
  then show ?case by simp
next
  case (Cons c cs)
  obtain nxt lbl where c: "c = (nxt, lbl)" by (cases c)
  from Cons.prems have fresh: "nxt \<notin> fst ` set acc" and d: "distinct (map fst ((acc @ [(nxt, lbl)]) @ cs))"
    by (auto simp: c)
  have "addChoice lbl nxt (sc\<lparr>choices := acc\<rparr>) = (True, sc\<lparr>choices := acc @ [(nxt, lbl)]\<rparr>)"
    using fresh by (simp add: addChoice_fresh)
  then show ?case
    using Cons.IH [OF d] by (simp add: c del: choice_entry.simps add: choice_entry_encoded)
qed

text \<open>
  Claim C3, as stated for every scene, fails: \<^verbatim>\<open>fromJson\<close> rejects a record whose
  \<^verbatim>\<open>text\<close> is the empty string (the default text of the constructor), so the scene
  \<^verbatim>\<open>new Scene("A")\<close> serialises to a record that does not deserialise.
\<close>

theorem fromJson_empty_text_counterexample:
  "fromJson Map.empty ''A'' (toJSON \<lparr>key = ''A'', scene_text = '''', parent = None, choices = []\<rparr>)
   = Inr None"
  by (simp add: fromJson_def toJSON_def)

text \<open>
  Claim C3, amended. For every scene with a non-empty key and a non-empty text (the
  keys of its choices being unique, as in a \<^verbatim>\<open>Map\<close>), \<^verbatim>\<open>fromJson\<close> of the serialised
  scene, under the same key, returns the scene without its parent, and serialising that
  gives the first output again. For a scene whose key or text is empty, \<^verbatim>\<open>fromJson\<close> of
  the serialised scene returns \<^verbatim>\<open>null\<close>. Every scene without choices, whatever its key and
  text, serialises to a record with the \<^verbatim>\<open>text\<close> property alone.
\<close>

theorem toJSON_fromJson_roundtrip:
  "(key s \<noteq> [] \<and> scene_text s \<noteq> [] \<and> distinct (map fst (choices s)) \<longrightarrow>
      fromJson parse (key s) (toJSON s) = Inr (Some (s\<lparr>parent := None\<rparr>))
      \<and> toJSON (s\<lparr>parent := None\<rparr>) = toJSON s)
   \<and> (key s = [] \<or> scene_text s = [] \<longrightarrow> fromJson parse (key s) (toJSON s) = Inr None)
   \<and> (choices s = [] \<longrightarrow> toJSON s = JObj [(''text'', JStr (scene_text s))])"
proof (intro conjI impI)
  assume a: "key s \<noteq> [] \<and> scene_text s \<noteq> [] \<and> distinct (map fst (choices s))"
  let ?new = "\<lparr>key = key s, scene_text = scene_text s, parent = None, choices = []\<rparr>"
  have f: "fold (\<lambda>c sc. case choice_entry c of None \<Rightarrow> sc | Some (t, n) \<Rightarrow> snd (addChoice t n sc))
     (map (\<lambda>(nxt, txt). JObj [(''text'', JStr txt), (''next'', JStr nxt)]) (choices s))
     ?new = s\<lparr>parent := None\<rparr>"
    using fold_encoded_choices [of "[]" "choices s" ?new] a by simp
  show "fromJson parse (key s) (toJSON s) = Inr (Some (s\<lparr>parent := None\<rparr>))"
  proof (cases "choices s = []")
    case True
    then show ?thesis using a by (simp add: fromJson_def toJSON_def)
  next
    case False
    then show ?thesis using a f
      by (simp add: fromJson_def toJSON_def del: choice_entry.simps)
  qed
  show "toJSON (s\<lparr>parent := None\<rparr>) = toJSON s" by (simp add: toJSON_def)
next
  assume "key s = [] \<or> scene_text s = []"
  then show "fromJson parse (key s) (toJSON s) = Inr None"
    by (auto simp: fromJson_def toJSON_def)
next
  assume "choices s = []"
  then show "toJSON s = JObj [(''text'', JStr (scene_text s))]" by (simp add: toJSON_def)
qed

theorem toJSON_fromJson_roundtrip_witness:
  "fromJson Map.empty ''A''
     (toJSON \<lparr>key = ''A'', scene_text = ''Root Scene'', parent = Some 3,
              choices = [(''B'', ''Go to B''), (''C'', '''')]\<rparr>)
   = Inr (Some \<lparr>key = ''A'', scene_text = ''Root Scene'', parent = None,
                 choices = [(''B'', ''Go to B''), (''C'', '''')]\<rparr>)
   \<and> toJSON \<lparr>key = ''A'', scene_text = ''Root Scene'', parent = None,
               choices = [(''B'', ''Go to B''), (''C'', '''')]\<rparr>
     = toJSON \<lparr>key = ''A'', scene_text = ''Root Scene'', parent = Some 3,
               choices = [(''B'', ''Go to B''), (''C'', '''')]\<rparr>
   \<and> fromJson Map.empty ''A''
       (toJSON \<lparr>key = ''A'', scene_text = '''', parent = None, choices = [(''B'', ''Go to B'')]\<rparr>)
     = Inr None
   \<and> fromJson Map.empty ''''
       (toJSON \<lparr>key = '''', scene_text = ''Root Scene'', parent = None, choices = []\<rparr>)
     = Inr None
   \<and> toJSON \<lparr>key = ''A'', scene_text = '''', parent = None, choices = []\<rparr>
     = JObj [(''text'', JStr '''')]"
proof -
  let ?s = "\<lparr>key = ''A'', scene_text = ''Root Scene'', parent = Some (3::ref),
              choices = [(''B'', ''Go to B''), (''C'', '''')]\<rparr>"
  let ?t = "\<lparr>key = ''A'', scene_text = '''', parent = None :: ref option,
              choices = [(''B'', ''Go to B'')]\<rparr>"
  let ?k = "\<lparr>key = '''', scene_text = ''Root Scene'', parent = None :: ref option, choices = []\<rparr>"
  let ?e = "\<lparr>key = ''A'', scene_text = '''', parent = None :: ref option, choices = []\<rparr>"
  have a: "key ?s \<noteq> [] \<and> scene_text ?s \<noteq> [] \<and> distinct (map fst (choices ?s))" by simp
  have t: "key ?t = [] \<or> scene_text ?t = []" by simp
  have k: "key ?k = [] \<or> scene_text ?k = []" by simp
  have e: "choices ?e = []" by simp
  have 1: "fromJson Map.empty (key ?s) (toJSON ?s) = Inr (Some (?s\<lparr>parent := None\<rparr>))
      \<and> toJSON (?s\<lparr>parent := None\<rparr>) = toJSON ?s"
    by (rule toJSON_fromJson_roundtrip [THEN conjunct1, rule_format, OF a])
  have 2: "fromJson Map.empty (key ?t) (toJSON ?t) = Inr None"
    by (rule toJSON_fromJson_roundtrip [THEN conjunct2, THEN conjunct1, rule_format, OF t])
  have 3: "fromJson Map.empty (key ?k) (toJSON ?k) = Inr None"
    by (rule toJSON_fromJson_roundtrip [THEN conjunct2, THEN conjunct1, rule_format, OF k])
  have 4: "toJSON ?e = JObj [(''text'', JStr (scene_text ?e))]"
    by (rule toJSON_fromJson_roundtrip [THEN conjunct2, THEN conjunct2, rule_format, OF e])
  from 1 2 3 4 show ?thesis by simp
qed

section \<open>The traversal visits what is reachable\<close>














section \<open>Cascade delete\<close>

















section \<open>The root and the collection\<close>


















end
